theory Spec2Isabelle
  imports Main
begin

section \<open>Data model of the stream client (src/server/heliusStream.js)\<close>

text \<open>
  The module keeps its state in the closure of \<open>createWalletMintStream\<close>. The model
  turns that closure into a record that every handler takes and returns. What the
  client does to the outside world (onEvent and onLog calls, network requests, the
  state files, the delays given to the reconnect timer) is recorded in the same record.
  Answers of the outside world (RPC responses, socket events) are inputs of the handlers.
\<close>

type_synonym signature = string

record wm_pair =
  wallet :: "string option"
  mint :: "string option"

record cursor =
  lastSlot :: int
  lastSig :: "string option"

datatype origin = Backfill | Stream

record event =
  ev_source :: origin
  ev_pair :: wm_pair
  ev_slot :: int
  ev_signature :: signature
  ev_err :: "string option"
  ev_log :: string

datatype level = Info | Warn | Err

datatype net_call =
    HttpProbe
  | RpcGetLatestBlockhash
  | RpcGetSignaturesForAddress string int int
  | RpcGetTransaction signature
  | WsConnect
  | WsSendSubscribe "string list"

text \<open>A timer handle: \<open>null\<close>, armed with a delay, or non-null but no longer pending
  (it has fired, or clearTimeout was called without resetting the variable).\<close>

datatype timer = Null | Armed int | Spent

record timers_rec =
  ping :: timer
  liveness :: timer
  idle :: timer
  probe :: timer

datatype ready_state = CONNECTING | OPEN | CLOSED

record token_balance =
  tb_mint :: string
  tb_owner :: string

record tx_meta =
  preTokenBalances :: "token_balance list"
  postTokenBalances :: "token_balance list"

record tx =
  meta :: "tx_meta option"
  accountKeys :: "string list"

text \<open>What \<open>rpc("getTransaction", ...)\<close> gives: a thrown error, or \<open>json.result\<close>.\<close>

datatype tx_response = TxError string | TxResult "tx option"

text \<open>What \<open>rpc("getSignaturesForAddress", ...)\<close> gives. Each listed item carries the
  answer that a detail fetch for it would receive.\<close>

datatype sigs_response =
    SigsError string
  | SigsOk "(signature \<times> int \<times> tx_response) list"

datatype http_result = HttpOk | HttpFail string

text \<open>The closure created for one admitted live notification, waiting for its detail fetch.
  Once the fetch has answered and a saveEvent callback is configured, the closure waits
  for that callback with its event built: the field \<open>saving\<close> of the state holds these
  events.\<close>

record pending_detail =
  pd_signature :: signature
  pd_slot :: int
  pd_logs :: "string list"
  pd_err :: "string option"

record config =
  persist :: bool
  persistDir :: string
  backfillLimit :: int
  maxDetailConcurrency :: int
  filterMode :: string
  keywordRegex :: "string \<Rightarrow> bool"
  logPredicate :: "(string \<Rightarrow> bool) option"
  pingIntervalMs :: int
  pongTimeoutMs :: int
  maxBackoffMs :: int
  noMsgTimeoutMs :: int
  saveEvent :: "(event \<Rightarrow> bool) option"

record state =
  ws :: "ready_state option"
  timers :: timers_rec
  backoffMs :: int
  pair :: wm_pair
  inflightDetails :: int
  seen :: "signature list"
  shouldRun :: bool
  files :: "string \<rightharpoonup> cursor"
  events :: "event list"
  logs :: "(level \<times> string) list"
  net :: "net_call list"
  scheduled :: "int list"
  pending :: "pending_detail list"
  saving :: "event list"

datatype error = RequiresBoth | InvalidWallet | InvalidMint | ProbeFailed string

datatype outcome = Resolved | Rejected error

datatype ws_msg =
    Ack
  | LogsNotification signature "string list option" "string option" int
  | BadNotification
  | Unparseable
  | OtherMsg

datatype input =
    Start wm_pair http_result sigs_response
  | Stop
  | SetPair wm_pair http_result sigs_response
  | WsOpened
  | WsMessage ws_msg
  | WsErrored
  | WsUnexpectedResponse
  | WsClosed
  | ProbeTimer http_result
  | DetailDone pending_detail tx_response
  | SaveSettled event
  | PingTick
  | Pong
  | LivenessTimeout
  | IdleTimeout

section \<open>The functions of the module\<close>

text \<open>The state at lines 45-51.\<close>

definition init :: state where
  "init = \<lparr> ws = None,
            timers = \<lparr> ping = Null, liveness = Null, idle = Null, probe = Null \<rparr>,
            backoffMs = 1000,
            pair = \<lparr> wallet = None, mint = None \<rparr>,
            inflightDetails = 0,
            seen = [],
            shouldRun = False,
            files = Map.empty,
            events = [],
            logs = [],
            net = [],
            scheduled = [],
            pending = [],
            saving = [] \<rparr>"

text \<open>JavaScript truthiness of an identifier that is a string, \<open>null\<close> or \<open>undefined\<close>.\<close>

definition falsy :: "string option \<Rightarrow> bool" where
  "falsy x = (case x of None \<Rightarrow> True | Some s \<Rightarrow> s = [])"

text \<open>The string held by an identifier that has passed the truthiness test.\<close>

definition str :: "string option \<Rightarrow> string" where
  "str x = (case x of None \<Rightarrow> [] | Some s \<Rightarrow> s)"

definition onLog :: "level \<Rightarrow> string \<Rightarrow> state \<Rightarrow> state" where
  "onLog lv m s = s\<lparr> logs := logs s @ [(lv, m)] \<rparr>"

definition request :: "net_call \<Rightarrow> state \<Rightarrow> state" where
  "request c s = s\<lparr> net := net s @ [c] \<rparr>"

subsection \<open>Persistence helpers (lines 54-76)\<close>

text \<open>\<open>x || "none"\<close>.\<close>

definition or_none :: "string option \<Rightarrow> string" where
  "or_none x = (case x of None \<Rightarrow> ''none'' | Some s \<Rightarrow> if s = [] then ''none'' else s)"

definition stateKey :: "string option \<Rightarrow> string option \<Rightarrow> string" where
  "stateKey w m = take 6 (or_none w) @ ''_'' @ take 6 (or_none m)"

text \<open>\<open>path.join\<close> of a directory and a file name, for a directory name that needs no
  normalisation.\<close>

definition stateFile :: "config \<Rightarrow> string option \<Rightarrow> string option \<Rightarrow> string" where
  "stateFile cfg w m = persistDir cfg @ ''/'' @ ''state_'' @ stateKey w m @ ''.json''"

definition loadState :: "config \<Rightarrow> string option \<Rightarrow> string option \<Rightarrow> state \<Rightarrow> cursor" where
  "loadState cfg w m s =
     (if \<not> persist cfg then \<lparr> lastSlot = 0, lastSig = None \<rparr>
      else case files s (stateFile cfg w m) of
             None \<Rightarrow> \<lparr> lastSlot = 0, lastSig = None \<rparr>
           | Some st \<Rightarrow> st)"

definition saveState :: "config \<Rightarrow> string option \<Rightarrow> string option \<Rightarrow> cursor \<Rightarrow> state \<Rightarrow> state" where
  "saveState cfg w m st s =
     (if \<not> persist cfg then s
      else s\<lparr> files := (files s)(stateFile cfg w m \<mapsto> st) \<rparr>)"

subsection \<open>Utilities (lines 79-114)\<close>

text \<open>A JavaScript \<open>Set\<close> keeps insertion order, \<open>add\<close> of a member changes nothing, and
  \<open>seen.values().next().value\<close> is the oldest member.\<close>

definition remember :: "signature list \<Rightarrow> signature \<Rightarrow> signature list" where
  "remember sn sg =
     (let sn' = (if sg \<in> set sn then sn else sn @ [sg])
      in if length sn' > 5000 then tl sn' else sn')"

definition clearAllTimers :: "state \<Rightarrow> state" where
  "clearAllTimers s =
     s\<lparr> timers := \<lparr> ping = Null, liveness = Null, idle = Null, probe = Null \<rparr> \<rparr>"

text \<open>\<open>Math.round(b * 1.5)\<close> on an integer \<open>b\<close>: the product is exact, and a half rounds up.\<close>

definition round_times_1_5 :: "int \<Rightarrow> int" where
  "round_times_1_5 b = (3 * b + 1) div 2"

definition next_backoff :: "config \<Rightarrow> int \<Rightarrow> int" where
  "next_backoff cfg b = min (maxBackoffMs cfg) (round_times_1_5 b)"

definition scheduleReconnect :: "config \<Rightarrow> state \<Rightarrow> state" where
  "scheduleReconnect cfg s =
     (if \<not> shouldRun s then s
      else let b = next_backoff cfg (backoffMs s);
               s1 = onLog Warn ''Reconnect scheduled'' (s\<lparr> backoffMs := b \<rparr>)
           in s1\<lparr> timers := (timers s1)\<lparr> probe := Armed b \<rparr>,
                  scheduled := scheduled s1 @ [b] \<rparr>)"

subsection \<open>Heartbeat and idle recycling (lines 187-221)\<close>

definition terminate :: "state \<Rightarrow> state" where
  "terminate s = s\<lparr> ws := map_option (\<lambda>_. CLOSED) (ws s) \<rparr>"

definition cancel :: "timer \<Rightarrow> timer" where
  "cancel t = (case t of Null \<Rightarrow> Null | _ \<Rightarrow> Spent)"

definition startHeartbeat :: "config \<Rightarrow> state \<Rightarrow> state" where
  "startHeartbeat cfg s =
     s\<lparr> timers := (timers s)\<lparr> liveness := cancel (liveness (timers s)),
                               ping := Armed (pingIntervalMs cfg) \<rparr> \<rparr>"

definition armIdleRecycle :: "config \<Rightarrow> state \<Rightarrow> state" where
  "armIdleRecycle cfg s = s\<lparr> timers := (timers s)\<lparr> idle := Armed (noMsgTimeoutMs cfg) \<rparr> \<rparr>"

definition ping_tick :: "config \<Rightarrow> state \<Rightarrow> state" where
  "ping_tick cfg s =
     (if ws s \<noteq> Some OPEN then s
      else s\<lparr> timers := (timers s)\<lparr> liveness := Armed (pongTimeoutMs cfg) \<rparr> \<rparr>)"

definition liveness_timeout :: "state \<Rightarrow> state" where
  "liveness_timeout s =
     terminate (onLog Warn ''WS liveness timeout; terminating''
                  (s\<lparr> timers := (timers s)\<lparr> liveness := Spent \<rparr> \<rparr>))"

definition on_pong :: "state \<Rightarrow> state" where
  "on_pong s = s\<lparr> timers := (timers s)\<lparr> liveness := cancel (liveness (timers s)) \<rparr> \<rparr>"

definition idle_timeout :: "state \<Rightarrow> state" where
  "idle_timeout s =
     (let s1 = s\<lparr> timers := (timers s)\<lparr> idle := Spent \<rparr> \<rparr>
      in if ws s1 \<noteq> Some OPEN then s1
         else terminate (onLog Warn ''No messages for a while - recycle socket'' s1))"

subsection \<open>Subscription and filtering (lines 223-301)\<close>

definition buildSub :: "state \<Rightarrow> string list" where
  "buildSub s =
     (if falsy (wallet (pair s)) then [] else [str (wallet (pair s))]) @
     (if \<not> falsy (mint (pair s)) \<and> mint (pair s) \<noteq> wallet (pair s)
      then [str (mint (pair s))] else [])"

definition isImportantLog :: "config \<Rightarrow> string list option \<Rightarrow> bool" where
  "isImportantLog cfg lg =
     (case lg of
        None \<Rightarrow> False
      | Some [] \<Rightarrow> False
      | Some ls \<Rightarrow>
          if filterMode cfg = ''keywords'' then list_ex (keywordRegex cfg) ls
          else (case logPredicate cfg of
                  Some p \<Rightarrow> list_ex p ls
                | None \<Rightarrow> True))"

text \<open>The co-occurrence test of lines 257-292 on a fetched transaction.\<close>

definition pair_in_tx :: "wm_pair \<Rightarrow> tx_meta \<Rightarrow> tx \<Rightarrow> bool" where
  "pair_in_tx p mt t =
     (let all = preTokenBalances mt @ postTokenBalances mt;
          mintSeen = (\<not> falsy (mint p) \<and> list_ex (\<lambda>b. Some (tb_mint b) = mint p) all);
          walletSeen = (\<not> falsy (wallet p) \<and>
                        (list_ex (\<lambda>b. Some (tb_owner b) = wallet p) all \<or>
                         list_ex (\<lambda>k. Some k = wallet p) (accountKeys t)))
      in mintSeen \<and> walletSeen)"

text \<open>\<open>txHasWalletMintPair\<close> from the point where the response of its RPC arrives; the
  request itself is recorded by the caller at the moment the function is called.\<close>

definition txHasWalletMintPair :: "tx_response \<Rightarrow> state \<Rightarrow> bool \<times> state" where
  "txHasWalletMintPair r s =
     (case r of
        TxError e \<Rightarrow> (False, onLog Err ''txHasWalletMintPair failed'' s)
      | TxResult None \<Rightarrow> (False, s)
      | TxResult (Some t) \<Rightarrow>
          (case meta t of
             None \<Rightarrow> (False, s)
           | Some mt \<Rightarrow> (pair_in_tx (pair s) mt t, s)))"

text \<open>\<open>cfg.saveEvent\<close>, when configured, may throw or reject.\<close>

definition save_fails :: "config \<Rightarrow> event \<Rightarrow> bool" where
  "save_fails cfg ev = (case saveEvent cfg of None \<Rightarrow> False | Some f \<Rightarrow> \<not> f ev)"

subsection \<open>Backfill (lines 140-185)\<close>

text \<open>The \<open>for\<close> loop over the listed signatures. The first component of the result is
  \<open>True\<close> when an exception left the loop.\<close>

fun backfill_loop ::
  "config \<Rightarrow> string option \<Rightarrow> string option \<Rightarrow> (signature \<times> int \<times> tx_response) list
     \<Rightarrow> state \<Rightarrow> bool \<times> state" where
  "backfill_loop cfg w m [] s = (False, s)"
| "backfill_loop cfg w m ((sg, sl, r) # rest) s =
     (if sg \<in> set (seen s) then backfill_loop cfg w m rest s
      else case txHasWalletMintPair r (request (RpcGetTransaction sg) s) of
        (ok, s1) \<Rightarrow>
          if \<not> ok then backfill_loop cfg w m rest s1
          else let ev = \<lparr> ev_source = Backfill, ev_pair = \<lparr> wallet = w, mint = m \<rparr>,
                           ev_slot = sl, ev_signature = sg, ev_err = None,
                           ev_log = ''backfill-scan'' \<rparr>
               in if save_fails cfg ev then (True, s1)
                  else let s2 = s1\<lparr> events := events s1 @ [ev],
                                     seen := remember (seen s1) sg \<rparr>;
                           st = loadState cfg w m s2;
                           st' = st\<lparr> lastSlot := max (lastSlot st) sl, lastSig := Some sg \<rparr>
                       in backfill_loop cfg w m rest (saveState cfg w m st' s2))"

definition backfillOnce ::
  "config \<Rightarrow> string option \<Rightarrow> string option \<Rightarrow> int \<Rightarrow> sigs_response \<Rightarrow> state \<Rightarrow> state" where
  "backfillOnce cfg w m lastKnownSlot resp s =
     (let s0 = onLog Info ''Backfill start'' s
      in if falsy w then s0
         else let since = max 0 (lastKnownSlot - 1);
                  s1 = request (RpcGetSignaturesForAddress (str w)
                                  (backfillLimit cfg) since) s0
              in (case resp of
                    SigsError e \<Rightarrow> onLog Err ''Backfill error'' s1
                  | SigsOk items \<Rightarrow>
                      (case backfill_loop cfg w m items s1 of
                         (False, s2) \<Rightarrow> s2
                       | (True, s2) \<Rightarrow> onLog Err ''Backfill error'' s2)))"

subsection \<open>The socket and its handlers (lines 303-445)\<close>

definition connect :: "config \<Rightarrow> state \<Rightarrow> state" where
  "connect cfg s =
     (if \<not> shouldRun s then s
      else if falsy (wallet (pair s)) \<or> falsy (mint (pair s)) then s
      else request WsConnect ((clearAllTimers s)\<lparr> ws := Some CONNECTING \<rparr>))"

definition on_open :: "config \<Rightarrow> state \<Rightarrow> state" where
  "on_open cfg s =
     (let s1 = onLog Info ''Connected to Helius WS'' s;
          s2 = startHeartbeat cfg (s1\<lparr> backoffMs := 1000 \<rparr>);
          s3 = request (WsSendSubscribe (buildSub s2)) s2;
          s4 = onLog Info ''Sent subscription (mentions wallet+mint)'' s3
      in armIdleRecycle cfg s4)"

definition on_notification ::
  "config \<Rightarrow> signature \<Rightarrow> string list option \<Rightarrow> string option \<Rightarrow> int \<Rightarrow> state \<Rightarrow> state" where
  "on_notification cfg sg lg er sl s =
     (let s1 = armIdleRecycle cfg s
      in if sg \<in> set (seen s1) then s1
         else if \<not> isImportantLog cfg lg then s1
         else if inflightDetails s1 \<ge> maxDetailConcurrency cfg then s1
         else request (RpcGetTransaction sg)
                (s1\<lparr> inflightDetails := inflightDetails s1 + 1,
                     pending := pending s1 @
                       [\<lparr> pd_signature = sg, pd_slot = sl,
                          pd_logs = (case lg of None \<Rightarrow> [] | Some ls \<Rightarrow> ls), pd_err = er \<rparr>] \<rparr>))"

text \<open>\<open>err || null\<close>: an empty string is falsy.\<close>

definition or_null :: "string option \<Rightarrow> string option" where
  "or_null x = (case x of None \<Rightarrow> None | Some e \<Rightarrow> if e = [] then None else Some e)"

text \<open>Lines 371-376: the event is delivered, its signature remembered and the cursor of
  the pair that is current at this moment written with the slot of the notification.\<close>

definition emit_live :: "config \<Rightarrow> event \<Rightarrow> state \<Rightarrow> state" where
  "emit_live cfg ev s =
     (let s3 = s\<lparr> events := events s @ [ev],
                    seen := remember (seen s) (ev_signature ev) \<rparr>;
          st = loadState cfg (wallet (pair s3)) (mint (pair s3)) s3;
          st' = st\<lparr> lastSlot := ev_slot ev, lastSig := Some (ev_signature ev) \<rparr>
      in saveState cfg (wallet (pair s3)) (mint (pair s3)) st' s3)"

text \<open>The async closure of lines 355-384 from the answer of its detail fetch up to its
  next await. Without a saveEvent callback there is none and the closure runs to its end;
  with one, it stops at line 370 until the callback has settled.\<close>

definition detail_done :: "config \<Rightarrow> pending_detail \<Rightarrow> tx_response \<Rightarrow> state \<Rightarrow> state" where
  "detail_done cfg pd r s =
     (case txHasWalletMintPair r (s\<lparr> pending := remove1 pd (pending s) \<rparr>) of
        (ok, s1) \<Rightarrow>
          let s2 = s1\<lparr> inflightDetails := inflightDetails s1 - 1 \<rparr>
          in if \<not> ok then s2
             else let ev = \<lparr> ev_source = Stream, ev_pair = pair s2,
                              ev_slot = pd_slot pd, ev_signature = pd_signature pd,
                              ev_err = or_null (pd_err pd),
                              ev_log = (case pd_logs pd of [] \<Rightarrow> [] | l # _ \<Rightarrow> l) \<rparr>
                  in if saveEvent cfg = None then emit_live cfg ev s2
                     else s2\<lparr> saving := saving s2 @ [ev] \<rparr>)"

text \<open>The closure after the saveEvent callback has settled: lines 371-376 when it
  resolved, the catch handler of lines 377-384 when it threw or rejected.\<close>

definition save_settled :: "config \<Rightarrow> event \<Rightarrow> state \<Rightarrow> state" where
  "save_settled cfg ev s =
     (let s1 = s\<lparr> saving := remove1 ev (saving s) \<rparr>
      in if save_fails cfg ev
         then onLog Err ''detail fetch failed''
                (s1\<lparr> inflightDetails := inflightDetails s1 - 1 \<rparr>)
         else emit_live cfg ev s1)"

definition on_message :: "config \<Rightarrow> ws_msg \<Rightarrow> state \<Rightarrow> state" where
  "on_message cfg msg s =
     (case msg of
        Ack \<Rightarrow> armIdleRecycle cfg (onLog Info ''Subscribed'' s)
      | LogsNotification sg lg er sl \<Rightarrow> on_notification cfg sg lg er sl s
      | BadNotification \<Rightarrow> onLog Err ''message parse failed'' (armIdleRecycle cfg s)
      | Unparseable \<Rightarrow> onLog Err ''message parse failed'' s
      | OtherMsg \<Rightarrow> s)"

definition on_error :: "state \<Rightarrow> state" where
  "on_error s = terminate (onLog Err ''WS error'' s)"

definition on_unexpected_response :: "state \<Rightarrow> state" where
  "on_unexpected_response s = terminate (onLog Err ''Unexpected WS response'' s)"

definition on_close :: "config \<Rightarrow> state \<Rightarrow> state" where
  "on_close cfg s = scheduleReconnect cfg (onLog Warn ''WS closed'' s)"

text \<open>The callback of the reconnect timer (lines 101-113).\<close>

definition probe_timer :: "config \<Rightarrow> http_result \<Rightarrow> state \<Rightarrow> state" where
  "probe_timer cfg r s =
     (let s1 = request RpcGetLatestBlockhash (s\<lparr> timers := (timers s)\<lparr> probe := Spent \<rparr> \<rparr>)
      in (case r of
            HttpOk \<Rightarrow> connect cfg s1
          | HttpFail e \<Rightarrow> scheduleReconnect cfg (onLog Warn ''Probe failed; will retry'' s1)))"

subsection \<open>Public operations (lines 447-507)\<close>

definition base58_char :: "char \<Rightarrow> bool" where
  "base58_char c = (c \<in> set ''123456789ABCDEFGHJKLMNPQRSTUVWXYZabcdefghijkmnopqrstuvwxyz'')"

text \<open>The test of \<open>/^[1-9A-HJ-NP-Za-km-z]{32,44}$/\<close>.\<close>

definition base58 :: "string \<Rightarrow> bool" where
  "base58 s = (32 \<le> length s \<and> length s \<le> 44 \<and> list_all base58_char s)"

definition validate :: "wm_pair \<Rightarrow> error option" where
  "validate p =
     (if falsy (wallet p) \<or> falsy (mint p) then Some RequiresBoth
      else if \<not> base58 (str (wallet p)) then Some InvalidWallet
      else if \<not> base58 (str (mint p)) then Some InvalidMint
      else None)"

definition start :: "config \<Rightarrow> wm_pair \<Rightarrow> http_result \<Rightarrow> sigs_response \<Rightarrow> state \<Rightarrow> outcome \<times> state" where
  "start cfg p pr resp s =
     (case validate p of
        Some e \<Rightarrow> (Rejected e, s)
      | None \<Rightarrow>
          let s1 = request HttpProbe s
          in (case pr of
                HttpFail e \<Rightarrow>
                  (Rejected (ProbeFailed e), onLog Err ''Helius HTTP probe failed'' s1)
              | HttpOk \<Rightarrow>
                  let s2 = onLog Info ''Helius HTTP probe OK'' s1;
                      s3 = s2\<lparr> pair := \<lparr> wallet = wallet p, mint = mint p \<rparr>,
                              shouldRun := True \<rparr>;
                      st = loadState cfg (wallet (pair s3)) (mint (pair s3)) s3;
                      s4 = backfillOnce cfg (wallet (pair s3)) (mint (pair s3))
                             (lastSlot st) resp s3
                  in (Resolved, connect cfg s4)))"

definition stop :: "state \<Rightarrow> state" where
  "stop s = (clearAllTimers (s\<lparr> shouldRun := False \<rparr>))\<lparr> ws := None \<rparr>"

definition setPair :: "config \<Rightarrow> wm_pair \<Rightarrow> http_result \<Rightarrow> sigs_response \<Rightarrow> state \<Rightarrow> outcome \<times> state" where
  "setPair cfg p pr resp s = start cfg p pr resp (stop s)"

subsection \<open>The client as a machine\<close>

text \<open>One input is one run of a handler up to its next await. A socket event is taken
  only in a socket state that can produce it, a timer fires only while armed, a detail
  fetch answers only if it was started and a saveEvent callback settles only if it was
  called. start, with its probe and its backfill pass, is a single input: what other
  handlers do between its awaits is not part of the model.\<close>

definition step :: "config \<Rightarrow> input \<Rightarrow> state \<Rightarrow> state" where
  "step cfg i s =
     (case i of
        Start p pr resp \<Rightarrow> snd (start cfg p pr resp s)
      | Stop \<Rightarrow> stop s
      | SetPair p pr resp \<Rightarrow> snd (setPair cfg p pr resp s)
      | WsOpened \<Rightarrow> if ws s = Some CONNECTING then on_open cfg (s\<lparr> ws := Some OPEN \<rparr>) else s
      | WsMessage msg \<Rightarrow> if ws s = Some OPEN then on_message cfg msg s else s
      | WsErrored \<Rightarrow> if ws s = None then s else on_error s
      | WsUnexpectedResponse \<Rightarrow> if ws s = Some CONNECTING then on_unexpected_response s else s
      | WsClosed \<Rightarrow> on_close cfg (terminate s)
      | ProbeTimer r \<Rightarrow>
          (case probe (timers s) of Armed d \<Rightarrow> probe_timer cfg r s | _ \<Rightarrow> s)
      | DetailDone pd r \<Rightarrow> if pd \<in> set (pending s) then detail_done cfg pd r s else s
      | SaveSettled ev \<Rightarrow> if ev \<in> set (saving s) then save_settled cfg ev s else s
      | PingTick \<Rightarrow> (case ping (timers s) of Armed d \<Rightarrow> ping_tick cfg s | _ \<Rightarrow> s)
      | Pong \<Rightarrow> if ws s = Some OPEN then on_pong s else s
      | LivenessTimeout \<Rightarrow>
          (case liveness (timers s) of Armed d \<Rightarrow> liveness_timeout s | _ \<Rightarrow> s)
      | IdleTimeout \<Rightarrow> (case idle (timers s) of Armed d \<Rightarrow> idle_timeout s | _ \<Rightarrow> s))"

fun run :: "config \<Rightarrow> input list \<Rightarrow> state \<Rightarrow> state" where
  "run cfg [] s = s"
| "run cfg (i # is) s = run cfg is (step cfg i s)"

section \<open>The default configuration (lines 9-31) and sample data\<close>

text \<open>The test of \<open>/(Swap|Transfer|Initialize|Deposit|Withdraw)/i\<close>: one of the keywords
  occurs in the line, letters compared without case.\<close>

definition lower :: "char \<Rightarrow> char" where
  "lower c = (case map_of (zip ''ABCDEFGHIJKLMNOPQRSTUVWXYZ'' ''abcdefghijklmnopqrstuvwxyz'') c of
                None \<Rightarrow> c | Some d \<Rightarrow> d)"

fun matches_at :: "string \<Rightarrow> string \<Rightarrow> bool" where
  "matches_at [] t = True"
| "matches_at (k # ks) [] = False"
| "matches_at (k # ks) (c # cs) = (k = lower c \<and> matches_at ks cs)"

fun occurs_in :: "string \<Rightarrow> string \<Rightarrow> bool" where
  "occurs_in k [] = matches_at k []"
| "occurs_in k (c # cs) = (matches_at k (c # cs) \<or> occurs_in k cs)"

definition default_keywordRegex :: "string \<Rightarrow> bool" where
  "default_keywordRegex l =
     list_ex (\<lambda>k. occurs_in k l)
       [''swap'', ''transfer'', ''initialize'', ''deposit'', ''withdraw'']"

definition default_cfg :: config where
  "default_cfg =
     \<lparr> persist = True, persistDir = ''.helius_state'', backfillLimit = 15,
       maxDetailConcurrency = 2, filterMode = ''keywords'',
       keywordRegex = default_keywordRegex, logPredicate = None,
       pingIntervalMs = 12000, pongTimeoutMs = 8000, maxBackoffMs = 5000,
       noMsgTimeoutMs = 60000, saveEvent = None \<rparr>"

definition W :: string where
  "W = ''9WzDXwBbmkg8ZTbNMqUxvQRAyrZzDsGYdLVL9zYtAWWM''"

definition M :: string where
  "M = ''So11111111111111111111111111111111111111112''"

definition P :: wm_pair where
  "P = \<lparr> wallet = Some W, mint = Some M \<rparr>"

text \<open>A transaction whose balance records name the mint \<open>M\<close> with owner \<open>W\<close>.\<close>

definition okTx :: tx_response where
  "okTx = TxResult (Some \<lparr> meta = Some \<lparr> preTokenBalances = [\<lparr> tb_mint = M, tb_owner = W \<rparr>],
                                         postTokenBalances = [] \<rparr>,
                           accountKeys = [] \<rparr>)"

definition swapLog :: "string list option" where
  "swapLog = Some [''Program log: Instruction: Swap'']"

text \<open>A live notification and the completion of its detail fetch.\<close>

definition notify :: "signature \<Rightarrow> int \<Rightarrow> input" where
  "notify sg sl = WsMessage (LogsNotification sg swapLog None sl)"

definition fetched :: "signature \<Rightarrow> int \<Rightarrow> tx_response \<Rightarrow> input" where
  "fetched sg sl r =
     DetailDone \<lparr> pd_signature = sg, pd_slot = sl,
                  pd_logs = [''Program log: Instruction: Swap''], pd_err = None \<rparr> r"

text \<open>The event that the live path builds for such a notification on the sample pair, and
  the settling of the saveEvent callback called with it.\<close>

definition stream_event :: "signature \<Rightarrow> int \<Rightarrow> event" where
  "stream_event sg sl =
     \<lparr> ev_source = Stream, ev_pair = P, ev_slot = sl, ev_signature = sg, ev_err = None,
       ev_log = ''Program log: Instruction: Swap'' \<rparr>"

definition saved :: "signature \<Rightarrow> int \<Rightarrow> input" where
  "saved sg sl = SaveSettled (stream_event sg sl)"

text \<open>The default configuration with a saveEvent callback that rejects every event.\<close>

definition failing_save_cfg :: config where
  "failing_save_cfg = default_cfg\<lparr> saveEvent := Some (\<lambda>ev. False) \<rparr>"

section \<open>Observations used in the statements\<close>


text \<open>The persisted cursor of a pair, as the state file holds it.\<close>

definition stored_cursor :: "config \<Rightarrow> wm_pair \<Rightarrow> state \<Rightarrow> cursor option" where
  "stored_cursor cfg p s = files s (stateFile cfg (wallet p) (mint p))"



text \<open>A second wallet, equal to \<open>W\<close> on its first six characters.\<close>

definition W2 :: string where
  "W2 = ''9WzDXwCcmkg8ZTbNMqUxvQRAyrZzDsGYdLVL9zYtAWWM''"

text \<open>The part of the state that a backfill pass never writes.\<close>

definition control ::
  "state \<Rightarrow> ready_state option \<times> timers_rec \<times> int \<times> wm_pair \<times> int \<times> bool \<times> int list \<times>
     pending_detail list \<times> event list" where
  "control s = (ws s, timers s, backoffMs s, pair s, inflightDetails s, shouldRun s,
                scheduled s, pending s, saving s)"

text \<open>The origins of the onEvent calls made so far for a signature, in order.\<close>

definition emissions :: "signature \<Rightarrow> state \<Rightarrow> origin list" where
  "emissions sg s = map ev_source (filter (\<lambda>e. ev_signature e = sg) (events s))"

text \<open>The number of members of the seen-set from a signature up to the newest one. The
  signature is evicted when this number would pass 5000.\<close>

definition rank :: "signature \<Rightarrow> signature list \<Rightarrow> nat" where
  "rank sg sn = length (dropWhile (\<lambda>x. x \<noteq> sg) sn)"









section \<open>Sample data is well formed\<close>

lemma base58_W: "base58 W"
  by (simp add: base58_def base58_char_def W_def)

lemma base58_W2: "base58 W2"
  by (simp add: base58_def base58_char_def W2_def)

lemma base58_M: "base58 M"
  by (simp add: base58_def base58_char_def M_def)

lemma W_nonempty: "W \<noteq> []" "M \<noteq> []" "W2 \<noteq> []"
  by (simp_all add: W_def M_def W2_def)

lemma validate_P: "validate P = None"
  by (simp add: validate_def P_def falsy_def str_def base58_W base58_M W_nonempty)

lemma W_W2: "W \<noteq> W2" "take 6 W = take 6 W2"
  by (simp_all add: W_def W2_def)

section \<open>The storage key\<close>

lemma take6_or_none: "take 6 (or_none x) = take 6 (or_none (map_option (take 6) x))"
  by (cases x) (auto simp: or_none_def)

text \<open>
  C9. The storage key is a function of the first six characters of each identifier, and
  two distinct pairs of valid base58 identifiers share one key and one state file.
\<close>

theorem stateKey_truncation_collides:
  "stateKey w m = stateKey (map_option (take 6) w) (map_option (take 6) m) \<and>
   (\<exists>w1 m1 w2 m2. base58 w1 \<and> base58 m1 \<and> base58 w2 \<and> base58 m2 \<and> (w1, m1) \<noteq> (w2, m2) \<and>
      stateKey (Some w1) (Some m1) = stateKey (Some w2) (Some m2) \<and>
      stateFile cfg (Some w1) (Some m1) = stateFile cfg (Some w2) (Some m2))"
proof
  show "stateKey w m = stateKey (map_option (take 6) w) (map_option (take 6) m)"
    unfolding stateKey_def using take6_or_none [of w] take6_or_none [of m] by simp
next
  have k: "stateKey (Some W) (Some M) = stateKey (Some W2) (Some M)"
    by (simp add: stateKey_def or_none_def W_nonempty W_W2)
  then have f: "stateFile cfg (Some W) (Some M) = stateFile cfg (Some W2) (Some M)"
    by (simp add: stateFile_def)
  have "base58 W \<and> base58 M \<and> base58 W2 \<and> base58 M \<and> (W, M) \<noteq> (W2, M) \<and>
      stateKey (Some W) (Some M) = stateKey (Some W2) (Some M) \<and>
      stateFile cfg (Some W) (Some M) = stateFile cfg (Some W2) (Some M)"
    using k f by (simp add: base58_W base58_W2 base58_M W_W2)
  then show "\<exists>w1 m1 w2 m2. base58 w1 \<and> base58 m1 \<and> base58 w2 \<and> base58 m2 \<and>
      (w1, m1) \<noteq> (w2, m2) \<and>
      stateKey (Some w1) (Some m1) = stateKey (Some w2) (Some m2) \<and>
      stateFile cfg (Some w1) (Some m1) = stateFile cfg (Some w2) (Some m2)"
    by (intro exI)
qed

section \<open>Validation in start\<close>

text \<open>
  C6. When a field of the pair is missing or fails the base58 test, start rejects and
  returns the state it was given: no network call is recorded, and the pair, the
  should-run flag, the timers and the state files are untouched.
\<close>

theorem start_rejects_malformed_pair:
  assumes "falsy (wallet p) \<or> falsy (mint p) \<or>
           \<not> base58 (str (wallet p)) \<or> \<not> base58 (str (mint p))"
  shows "\<exists>e. start cfg p pr resp s = (Rejected e, s)"
proof -
  from assms have "validate p \<noteq> None"
    by (auto simp: validate_def)
  then obtain e where "validate p = Some e" by auto
  then show ?thesis by (simp add: start_def)
qed

theorem start_rejects_malformed_pair_witness:
  "\<exists>e. start default_cfg \<lparr> wallet = Some ''0x12'', mint = Some M \<rparr> HttpOk (SigsOk []) init
        = (Rejected e, init)"
  by (rule start_rejects_malformed_pair) (simp add: falsy_def base58_def str_def)

section \<open>Evaluating the model on sample runs\<close>

lemma W_neq_M: "W \<noteq> M" "M \<noteq> W"
  by (simp_all add: W_def M_def)

lemma P_fields: "wallet P = Some W" "mint P = Some M"
  by (simp_all add: P_def)

lemma P_eq: "\<lparr> wallet = Some W, mint = Some M \<rparr> = P"
  by (simp add: P_def)

lemma default_cfg_fields:
  "persist default_cfg = True" "persistDir default_cfg = ''.helius_state''"
  "backfillLimit default_cfg = 15" "maxDetailConcurrency default_cfg = 2"
  "filterMode default_cfg = ''keywords''" "keywordRegex default_cfg = default_keywordRegex"
  "logPredicate default_cfg = None" "pingIntervalMs default_cfg = 12000"
  "pongTimeoutMs default_cfg = 8000" "maxBackoffMs default_cfg = 5000"
  "noMsgTimeoutMs default_cfg = 60000" "saveEvent default_cfg = None"
  by (simp_all add: default_cfg_def)

lemma swap_line_matches: "default_keywordRegex ''Program log: Instruction: Swap''"
  by code_simp

lemma swapLog_important: "isImportantLog default_cfg swapLog"
  by (simp add: isImportantLog_def swapLog_def default_cfg_fields swap_line_matches)


lemmas handler_defs =
  step_def start_def stop_def setPair_def connect_def on_open_def on_message_def
  on_notification_def detail_done_def emit_live_def save_settled_def or_null_def on_close_def on_error_def on_unexpected_response_def
  probe_timer_def scheduleReconnect_def next_backoff_def round_times_1_5_def
  backfillOnce_def save_fails_def
  startHeartbeat_def armIdleRecycle_def clearAllTimers_def terminate_def cancel_def
  ping_tick_def on_pong_def liveness_timeout_def idle_timeout_def
  buildSub_def onLog_def request_def loadState_def saveState_def
  falsy_def str_def Let_def

lemmas sample_facts =
  validate_P W_nonempty W_neq_M P_fields default_cfg_fields swapLog_important

section \<open>What a backfill pass leaves alone\<close>

lemma control_eqD:
  assumes "control t = control s"
  shows "ws t = ws s" "timers t = timers s" "backoffMs t = backoffMs s" "pair t = pair s"
    "inflightDetails t = inflightDetails s" "shouldRun t = shouldRun s"
    "scheduled t = scheduled s" "pending t = pending s" "saving t = saving s"
  using assms by (simp_all add: control_def)

lemma control_onLog [simp]: "control (onLog l m s) = control s"
  by (simp add: control_def onLog_def)

lemma control_request [simp]: "control (request c s) = control s"
  by (simp add: control_def request_def)

lemma control_saveState [simp]: "control (saveState cfg w m st s) = control s"
  by (simp add: control_def saveState_def)

lemma control_txHas [simp]: "control (snd (txHasWalletMintPair r s)) = control s"
  by (simp add: txHasWalletMintPair_def split: tx_response.splits option.splits)

lemma control_emit [simp]: "control (s\<lparr> events := ev, seen := sn \<rparr>) = control s"
  by (simp add: control_def)

lemma backfill_loop_control: "control (snd (backfill_loop cfg w m items s)) = control s"
proof (induction cfg w m items s rule: backfill_loop.induct)
  case (1 cfg w m s)
  show ?case by simp
next
  case (2 cfg w m sg sl r rest s)
  obtain ok s1 where t: "txHasWalletMintPair r (request (RpcGetTransaction sg) s) = (ok, s1)"
    by (cases "txHasWalletMintPair r (request (RpcGetTransaction sg) s)")
  have c1: "control s1 = control s"
    using control_txHas [of r "request (RpcGetTransaction sg) s"] t by simp
  show ?case
  proof (cases "sg \<in> set (seen s)")
    case True
    with 2 show ?thesis by simp
  next
    case False
    note unseen = this
    show ?thesis
    proof (cases ok)
      case False
      with 2(2) [OF unseen t [symmetric]] unseen t c1 show ?thesis by simp
    next
      case True
      note ok = this
      let ?ev = "\<lparr> ev_source = Backfill, ev_pair = \<lparr> wallet = w, mint = m \<rparr>,
                           ev_slot = sl, ev_signature = sg, ev_err = None,
                           ev_log = ''backfill-scan'' \<rparr>"
      show ?thesis
      proof (cases "save_fails cfg ?ev")
        case True
        with unseen t ok c1 show ?thesis by simp
      next
        case False
        with 2(3) [OF unseen t [symmetric] _ refl False refl refl refl] unseen t ok c1
        show ?thesis by (simp add: Let_def)
      qed
    qed
  qed
qed

lemma backfillOnce_control: "control (backfillOnce cfg w m l resp s) = control s"
proof (cases "falsy w")
  case True
  then show ?thesis by (simp add: backfillOnce_def Let_def)
next
  case False
  let ?s1 = "request (RpcGetSignaturesForAddress (str w) (backfillLimit cfg) (max 0 (l - 1)))
               (onLog Info ''Backfill start'' s)"
  show ?thesis
  proof (cases resp)
    case (SigsError e)
    with False show ?thesis by (simp add: backfillOnce_def Let_def)
  next
    case (SigsOk items)
    obtain b s2 where r: "backfill_loop cfg w m items ?s1 = (b, s2)"
      by (cases "backfill_loop cfg w m items ?s1")
    have "control s2 = control s"
      using backfill_loop_control [of cfg w m items ?s1] r by simp
    with False SigsOk r show ?thesis
      by (cases b) (simp_all add: backfillOnce_def Let_def)
  qed
qed

lemma txHas_fields:
  "seen (snd (txHasWalletMintPair r s)) = seen s"
  "events (snd (txHasWalletMintPair r s)) = events s"
  "pending (snd (txHasWalletMintPair r s)) = pending s"
  "pair (snd (txHasWalletMintPair r s)) = pair s"
  "files (snd (txHasWalletMintPair r s)) = files s"
  "inflightDetails (snd (txHasWalletMintPair r s)) = inflightDetails s"
  "saving (snd (txHasWalletMintPair r s)) = saving s"
  "net (snd (txHasWalletMintPair r s)) = net s"
  by (simp_all add: txHasWalletMintPair_def onLog_def split: tx_response.splits option.splits)

lemma emit_live_fields:
  "seen (emit_live cfg ev s) = remember (seen s) (ev_signature ev)"
  "events (emit_live cfg ev s) = events s @ [ev]"
  "pending (emit_live cfg ev s) = pending s"
  "saving (emit_live cfg ev s) = saving s"
  "inflightDetails (emit_live cfg ev s) = inflightDetails s"
  "net (emit_live cfg ev s) = net s"
  "ws (emit_live cfg ev s) = ws s"
  "timers (emit_live cfg ev s) = timers s"
  "shouldRun (emit_live cfg ev s) = shouldRun s"
  "pair (emit_live cfg ev s) = pair s"
  by (simp_all add: emit_live_def saveState_def Let_def)

lemma connect_obs:
  "seen (connect cfg s) = seen s" "pending (connect cfg s) = pending s"
  "events (connect cfg s) = events s" "saving (connect cfg s) = saving s"
  by (simp_all add: connect_def request_def clearAllTimers_def)

lemma stop_obs:
  "seen (stop s) = seen s" "pending (stop s) = pending s" "events (stop s) = events s"
  "saving (stop s) = saving s"
  by (simp_all add: stop_def clearAllTimers_def)

lemma start_pending:
  "pending (snd (start cfg p pr resp s)) = pending s"
  "saving (snd (start cfg p pr resp s)) = saving s"
proof -
  have b: "pending (backfillOnce cfg w m l resp t) = pending t"
    "saving (backfillOnce cfg w m l resp t) = saving t" for w m l t
    by (rule control_eqD(8) [OF backfillOnce_control],
        rule control_eqD(9) [OF backfillOnce_control])
  show "pending (snd (start cfg p pr resp s)) = pending s"
    "saving (snd (start cfg p pr resp s)) = saving s"
    by (simp_all add: start_def Let_def b connect_obs onLog_def request_def
        split: option.splits http_result.splits)
qed

section \<open>Reconnect backoff\<close>

lemma scheduleReconnect_backoff:
  "backoffMs (scheduleReconnect cfg s) =
     (if shouldRun s then next_backoff cfg (backoffMs s) else backoffMs s)"
  by (simp add: scheduleReconnect_def onLog_def Let_def)

lemma connect_backoff: "backoffMs (connect cfg s) = backoffMs s"
  by (simp add: connect_def request_def clearAllTimers_def)

lemma backfillOnce_backoff: "backoffMs (backfillOnce cfg w m l resp s) = backoffMs s"
  by (rule control_eqD(3) [OF backfillOnce_control])

lemma start_backoff: "backoffMs (snd (start cfg p pr resp s)) = backoffMs s"
  by (simp add: start_def Let_def connect_backoff backfillOnce_backoff onLog_def request_def
      split: option.splits http_result.splits)

lemma stop_backoff: "backoffMs (stop s) = backoffMs s"
  by (simp add: stop_def clearAllTimers_def)

lemma on_open_backoff: "backoffMs (on_open cfg s) = 1000"
  by (simp add: on_open_def Let_def armIdleRecycle_def onLog_def request_def startHeartbeat_def)

lemma on_message_backoff: "backoffMs (on_message cfg msg s) = backoffMs s"
  by (cases msg)
     (simp_all add: on_message_def on_notification_def armIdleRecycle_def onLog_def
        request_def Let_def)

lemma emit_live_backoff: "backoffMs (emit_live cfg ev s) = backoffMs s"
  by (simp add: emit_live_def saveState_def Let_def)

lemma detail_done_backoff: "backoffMs (detail_done cfg pd r s) = backoffMs s"
  by (simp add: detail_done_def txHasWalletMintPair_def emit_live_backoff onLog_def Let_def
        split: tx_response.splits option.splits prod.splits)

lemma save_settled_backoff: "backoffMs (save_settled cfg ev s) = backoffMs s"
  by (simp add: save_settled_def emit_live_backoff onLog_def Let_def)

lemma probe_timer_backoff:
  "backoffMs (probe_timer cfg r s) =
     (case r of HttpOk \<Rightarrow> backoffMs s
      | HttpFail e \<Rightarrow> if shouldRun s then next_backoff cfg (backoffMs s) else backoffMs s)"
  by (simp add: probe_timer_def Let_def connect_backoff scheduleReconnect_backoff request_def
        onLog_def split: http_result.splits)

text \<open>
  C3 as the code has it. The open handler sets the backoff to 1000; the handler of the
  subscription acknowledgment leaves it as it is; and over all inputs of the machine the
  backoff either stays, is set to 1000 by the socket opening, or is raised by a close
  or a failed reconnect probe.
\<close>

theorem backoff_reset_on_open_not_on_ack:
  "backoffMs (on_open cfg s) = 1000 \<and>
   backoffMs (on_message cfg Ack s) = backoffMs s \<and>
   (backoffMs (step cfg i s) = backoffMs s \<or>
    i = WsOpened \<and> backoffMs (step cfg i s) = 1000 \<or>
    (i = WsClosed \<or> (\<exists>e. i = ProbeTimer (HttpFail e))) \<and>
      backoffMs (step cfg i s) = next_backoff cfg (backoffMs s))"
proof (intro conjI)
  show "backoffMs (on_open cfg s) = 1000" by (rule on_open_backoff)
  show "backoffMs (on_message cfg Ack s) = backoffMs s" by (rule on_message_backoff)
  show "backoffMs (step cfg i s) = backoffMs s \<or>
    i = WsOpened \<and> backoffMs (step cfg i s) = 1000 \<or>
    (i = WsClosed \<or> (\<exists>e. i = ProbeTimer (HttpFail e))) \<and>
      backoffMs (step cfg i s) = next_backoff cfg (backoffMs s)"
  proof (cases i)
    case (ProbeTimer r)
    then show ?thesis
      by (cases r) (simp_all add: step_def probe_timer_backoff split: timer.splits)
  next
    case WsClosed
    then show ?thesis
      by (simp add: step_def on_close_def scheduleReconnect_backoff terminate_def onLog_def)
  qed (simp_all add: step_def start_backoff setPair_def stop_backoff on_open_backoff
        on_message_backoff detail_done_backoff save_settled_backoff on_error_def on_unexpected_response_def
        terminate_def onLog_def ping_tick_def on_pong_def liveness_timeout_def idle_timeout_def
        Let_def split: timer.splits)
qed

text \<open>
  C3 as stated fails: after two failed attempts the backoff is 2250, and the socket
  reaching the open state, with no acknowledgment received, sets it back to 1000.
\<close>

theorem open_without_ack_resets_backoff:
  "backoffMs (run default_cfg [Start P HttpOk (SigsOk []), WsClosed,
                ProbeTimer (HttpFail ''down''), ProbeTimer HttpOk] init) = 2250 \<and>
   backoffMs (run default_cfg [Start P HttpOk (SigsOk []), WsClosed,
                ProbeTimer (HttpFail ''down''), ProbeTimer HttpOk, WsOpened] init) = 1000"
  by (simp add: init_def handler_defs sample_facts)

lemma run_append: "run cfg (xs @ ys) s = run cfg ys (run cfg xs s)"
  by (induction xs arbitrary: s) simp_all

lemma run_snoc: "run cfg (xs @ [x]) s = step cfg x (run cfg xs s)"
  by (simp add: run_append)

lemma step_WsClosed_running:
  assumes "shouldRun s"
  shows "shouldRun (step cfg WsClosed s)"
    "backoffMs (step cfg WsClosed s) = next_backoff cfg (backoffMs s)"
    "probe (timers (step cfg WsClosed s)) = Armed (next_backoff cfg (backoffMs s))"
    "scheduled (step cfg WsClosed s) = scheduled s @ [next_backoff cfg (backoffMs s)]"
  using assms
  by (simp_all add: step_def on_close_def scheduleReconnect_def terminate_def onLog_def Let_def)

lemma step_ProbeTimer_failed:
  assumes "shouldRun s" "probe (timers s) = Armed d"
  shows "shouldRun (step cfg (ProbeTimer (HttpFail e)) s)"
    "backoffMs (step cfg (ProbeTimer (HttpFail e)) s) = next_backoff cfg (backoffMs s)"
    "probe (timers (step cfg (ProbeTimer (HttpFail e)) s)) =
       Armed (next_backoff cfg (backoffMs s))"
    "scheduled (step cfg (ProbeTimer (HttpFail e)) s) =
       scheduled s @ [next_backoff cfg (backoffMs s)]"
  using assms
  by (simp_all add: step_def probe_timer_def scheduleReconnect_def request_def onLog_def
        Let_def)

text \<open>Consecutive failed probes follow the recurrence of the source, one delay each.\<close>

lemma failed_probes_scheduled:
  assumes "shouldRun s" "probe (timers s) = Armed d"
  shows "shouldRun (run cfg (replicate n (ProbeTimer (HttpFail e))) s) \<and>
         (\<exists>d'. probe (timers (run cfg (replicate n (ProbeTimer (HttpFail e))) s)) = Armed d') \<and>
         backoffMs (run cfg (replicate n (ProbeTimer (HttpFail e))) s) =
           ((next_backoff cfg) ^^ n) (backoffMs s) \<and>
         scheduled (run cfg (replicate n (ProbeTimer (HttpFail e))) s) =
           scheduled s @ map (\<lambda>k. ((next_backoff cfg) ^^ Suc k) (backoffMs s)) [0..<n]"
  using assms
proof (induction n)
  case 0
  then show ?case by simp
next
  case (Suc n)
  let ?s' = "run cfg (replicate n (ProbeTimer (HttpFail e))) s"
  from Suc obtain d' where ih: "shouldRun ?s'" "probe (timers ?s') = Armed d'"
    "backoffMs ?s' = ((next_backoff cfg) ^^ n) (backoffMs s)"
    "scheduled ?s' =
       scheduled s @ map (\<lambda>k. ((next_backoff cfg) ^^ Suc k) (backoffMs s)) [0..<n]"
    by blast
  have "replicate (Suc n) (ProbeTimer (HttpFail e)) =
          replicate n (ProbeTimer (HttpFail e)) @ [ProbeTimer (HttpFail e)]"
    by (simp add: replicate_append_same)
  then have r: "run cfg (replicate (Suc n) (ProbeTimer (HttpFail e))) s =
                  step cfg (ProbeTimer (HttpFail e)) ?s'"
    by (simp only: run_snoc)
  show ?case
    unfolding r using step_ProbeTimer_failed [OF ih(1,2), of cfg e] ih(3,4) by simp
qed

text \<open>The recurrence with cap 5000 from the base 1000.\<close>

lemma backoff_iterates:
  assumes "maxBackoffMs cfg = 5000"
  shows "((next_backoff cfg) ^^ Suc k) 1000 =
           (if k = 0 then 1500 else if k = 1 then 2250 else if k = 2 then 3375 else 5000)"
proof (induction k)
  case 0
  show ?case by (simp add: next_backoff_def round_times_1_5_def assms)
next
  case (Suc k)
  have "((next_backoff cfg) ^^ Suc (Suc k)) 1000 = next_backoff cfg (((next_backoff cfg) ^^ Suc k) 1000)"
    by simp
  also have "\<dots> = (if Suc k = 0 then 1500 else if Suc k = 1 then 2250
                    else if Suc k = 2 then 3375 else 5000)"
    unfolding Suc by (simp add: next_backoff_def round_times_1_5_def assms)
  finally show ?case .
qed

lemma closes_then_failed_probes:
  assumes "shouldRun s" "backoffMs s = 1000" "maxBackoffMs cfg = 5000"
  shows "scheduled (run cfg (WsClosed # replicate n (ProbeTimer (HttpFail e))) s) =
           scheduled s @
           map (\<lambda>k. if k = 0 then 1500 else if k = 1 then 2250 else if k = 2 then 3375 else 5000)
             [0..<Suc n]"
proof -
  let ?s1 = "step cfg WsClosed s"
  note c = step_WsClosed_running [OF assms(1), of cfg]
  from failed_probes_scheduled [OF c(1) c(3), where n = n and e = e]
  have "scheduled (run cfg (replicate n (ProbeTimer (HttpFail e))) ?s1) =
          scheduled ?s1 @ map (\<lambda>k. ((next_backoff cfg) ^^ Suc k) (backoffMs ?s1)) [0..<n]"
    by blast
  also have "\<dots> = scheduled s @ [next_backoff cfg 1000] @
                    map (\<lambda>k. ((next_backoff cfg) ^^ Suc (Suc k)) 1000) [0..<n]"
    using c(2,4) assms(2) by (simp add: funpow_swap1)
  also have "\<dots> = scheduled s @ map (\<lambda>k. ((next_backoff cfg) ^^ Suc k) 1000) [0..<Suc n]"
  proof -
    have u: "[0..<Suc n] = 0 # map Suc [0..<n]"
      by (simp only: map_Suc_upt upt_conv_Cons [OF zero_less_Suc])
    have h: "next_backoff cfg 1000 = ((next_backoff cfg) ^^ Suc 0) 1000"
      by simp
    show ?thesis
      unfolding u h by (simp add: comp_def del: funpow.simps)
  qed
  finally show ?thesis
    by (simp add: backoff_iterates [OF assms(3)] del: upt_Suc funpow.simps)
qed

text \<open>
  C2 as the code has it. scheduleReconnect multiplies before it waits, so from the base
  1000 with cap 5000 a close followed by consecutive failed probes waits 1500, 2250,
  3375, 5000, 5000, ... : the first wait is 1500, not the base.
\<close>

theorem reconnect_delays_from_base:
  assumes "shouldRun s" "backoffMs s = 1000" "maxBackoffMs cfg = 5000"
  shows "scheduled (run cfg (WsClosed # replicate n (ProbeTimer (HttpFail e))) s) =
           scheduled s @ take (Suc n) ([1500, 2250, 3375] @ replicate n 5000)"
proof -
  let ?f = "\<lambda>k::nat. if k = 0 then 1500 else if k = 1 then 2250
                     else if k = 2 then 3375 else (5000::int)"
  have "map ?f [0..<Suc n] = take (Suc n) ([1500, 2250, 3375] @ replicate n 5000)"
  proof (rule nth_equalityI)
    show "length (map ?f [0..<Suc n]) =
            length (take (Suc n) ([1500, 2250, 3375] @ replicate n (5000::int)))"
      by simp
  next
    fix i assume "i < length (map ?f [0..<Suc n])"
    then have i: "i < Suc n" by simp
    then have "map ?f [0..<Suc n] ! i = ?f i"
      by (simp only: nth_map_upt) simp
    moreover have "take (Suc n) ([1500, 2250, 3375] @ replicate n (5000::int)) ! i = ?f i"
    proof -
      consider "i = 0" | "i = 1" | "i = 2" | "3 \<le> i" by linarith
      then show ?thesis
      proof cases
        case 4
        then obtain j where j: "i = 3 + j" using le_Suc_ex by blast
        with i have "j < n" by simp
        with i j show ?thesis by (simp add: nth_append)
      qed (use i in simp_all)
    qed
    ultimately show "map ?f [0..<Suc n] ! i =
                       take (Suc n) ([1500, 2250, 3375] @ replicate n (5000::int)) ! i"
      by simp
  qed
  with closes_then_failed_probes [OF assms, of n e] show ?thesis by simp
qed

theorem reconnect_delays_from_base_witness:
  "shouldRun (run default_cfg [Start P HttpOk (SigsOk [])] init) \<and>
   backoffMs (run default_cfg [Start P HttpOk (SigsOk [])] init) = 1000 \<and>
   maxBackoffMs default_cfg = 5000 \<and>
   scheduled (run default_cfg (WsClosed # replicate 4 (ProbeTimer (HttpFail ''down'')))
                (run default_cfg [Start P HttpOk (SigsOk [])] init))
     = [1500, 2250, 3375, 5000, 5000]"
proof -
  let ?s = "run default_cfg [Start P HttpOk (SigsOk [])] init"
  have h: "shouldRun ?s" "backoffMs ?s = 1000" "scheduled ?s = []"
    by (simp_all add: init_def handler_defs sample_facts)
  have m: "maxBackoffMs default_cfg = 5000"
    by (simp add: default_cfg_fields)
  from reconnect_delays_from_base [OF h(1,2) m, of 4 "''down''"] h m
  show ?thesis by (simp add: numeral_eq_Suc)
qed

text \<open>
  C2 as stated fails: on the default configuration, after start, a close and five
  failed probes wait 1500, 2250, 3375, 5000, 5000, 5000, and not 1000, 1500, 2250, 3375,
  5000, 5000.
\<close>

theorem first_reconnect_delay_is_not_base:
  "scheduled (run default_cfg
       [Start P HttpOk (SigsOk []), WsClosed,
        ProbeTimer (HttpFail ''down''), ProbeTimer (HttpFail ''down''),
        ProbeTimer (HttpFail ''down''), ProbeTimer (HttpFail ''down''),
        ProbeTimer (HttpFail ''down'')] init)
     = [1500, 2250, 3375, 5000, 5000, 5000] \<and>
   scheduled (run default_cfg
       [Start P HttpOk (SigsOk []), WsClosed,
        ProbeTimer (HttpFail ''down''), ProbeTimer (HttpFail ''down''),
        ProbeTimer (HttpFail ''down''), ProbeTimer (HttpFail ''down''),
        ProbeTimer (HttpFail ''down'')] init)
     \<noteq> [1000, 1500, 2250, 3375, 5000, 5000]"
  by (simp add: init_def handler_defs sample_facts)

section \<open>The persisted cursor\<close>

lemmas detail_defs =
  notify_def fetched_def okTx_def txHasWalletMintPair_def pair_in_tx_def remember_def
  stored_cursor_def swapLog_def

text \<open>
  C4 on the live path. Two notifications are admitted (slots 10 and 11) and their detail
  fetches return in the other order. The live path stores the slot of the notification
  as it is (line 374), so the stored lastSlot goes from 11 down to 10. The backfill
  path takes the maximum (line 174).
\<close>

theorem live_cursor_goes_backwards:
  "map_option lastSlot (stored_cursor default_cfg P
     (run default_cfg
        [Start P HttpOk (SigsOk []), WsOpened, notify ''sigA'' 10, notify ''sigB'' 11,
         fetched ''sigB'' 11 okTx] init)) = Some 11 \<and>
   map_option lastSlot (stored_cursor default_cfg P
     (run default_cfg
        [Start P HttpOk (SigsOk []), WsOpened, notify ''sigA'' 10, notify ''sigB'' 11,
         fetched ''sigB'' 11 okTx, fetched ''sigA'' 10 okTx] init)) = Some 10"
proof -
  have i: "isImportantLog default_cfg (Some [''Program log: Instruction: Swap''])"
    using swapLog_important by (simp add: swapLog_def)
  show ?thesis
    by (simp add: init_def handler_defs detail_defs sample_facts i)
qed

text \<open>The backfill loop never lowers the stored lastSlot of the pair it scans.\<close>

lemma backfill_loop_cursor_monotone:
  assumes "files s (stateFile cfg w m) = Some c"
  shows "\<exists>c'. files (snd (backfill_loop cfg w m items s)) (stateFile cfg w m) = Some c' \<and>
              lastSlot c \<le> lastSlot c'"
  using assms
proof (induction cfg w m items s arbitrary: c rule: backfill_loop.induct)
  case (1 cfg w m s)
  then show ?case by simp
next
  case (2 cfg w m sg sl r rest s)
  obtain ok s1 where t: "txHasWalletMintPair r (request (RpcGetTransaction sg) s) = (ok, s1)"
    by (cases "txHasWalletMintPair r (request (RpcGetTransaction sg) s)")
  have f1: "files s1 = files s"
    using t by (auto simp: txHasWalletMintPair_def request_def onLog_def
                  split: tx_response.splits option.splits)
  show ?case
  proof (cases "sg \<in> set (seen s)")
    case True
    with 2 show ?thesis by simp
  next
    case False
    note unseen = this
    show ?thesis
    proof (cases ok)
      case False
      from 2(2) [OF unseen t [symmetric] _ , of c] False unseen t f1 "2.prems"
      show ?thesis by simp
    next
      case True
      note ok = this
      let ?ev = "\<lparr> ev_source = Backfill, ev_pair = \<lparr> wallet = w, mint = m \<rparr>,
                           ev_slot = sl, ev_signature = sg, ev_err = None,
                           ev_log = ''backfill-scan'' \<rparr>"
      show ?thesis
      proof (cases "save_fails cfg ?ev")
        case True
        with unseen t ok f1 "2.prems" show ?thesis by simp
      next
        case False
        let ?s2 = "s1\<lparr> events := events s1 @ [?ev], seen := remember (seen s1) sg \<rparr>"
        let ?st = "loadState cfg w m ?s2"
        let ?st' = "?st\<lparr> lastSlot := max (lastSlot ?st) sl, lastSig := Some sg \<rparr>"
        let ?s3 = "saveState cfg w m ?st' ?s2"
        show ?thesis
        proof (cases "persist cfg")
          case True
          have st: "?st = c" using True f1 "2.prems" by (simp add: loadState_def)
          have f3: "files ?s3 (stateFile cfg w m) = Some ?st'"
            using True by (simp add: saveState_def)
          from 2(3) [OF unseen t [symmetric] _ refl False refl refl refl f3] ok
          obtain c' where "files (snd (backfill_loop cfg w m rest ?s3)) (stateFile cfg w m) = Some c'"
            "lastSlot ?st' \<le> lastSlot c'" by auto
          moreover have "lastSlot c \<le> lastSlot ?st'" using st by simp
          ultimately show ?thesis
            using unseen t ok False by (auto simp: Let_def)
        next
          case np: False
          have f3: "files ?s3 (stateFile cfg w m) = Some c"
            using np f1 "2.prems" by (simp add: saveState_def)
          from 2(3) [OF unseen t [symmetric] _ refl False refl refl refl f3] ok
          show ?thesis using unseen t ok False by (auto simp: Let_def)
        qed
      qed
    qed
  qed
qed

section \<open>One history request per backfill pass\<close>
















section \<open>Failures during backfill\<close>

lemma validate_NoneD:
  assumes "validate p = None"
  shows "\<not> falsy (wallet p)" "\<not> falsy (mint p)"
  using assms by (auto simp: validate_def split: if_splits)

lemma connect_running:
  assumes "shouldRun s" "\<not> falsy (wallet (pair s))" "\<not> falsy (mint (pair s))"
  shows "ws (connect cfg s) = Some CONNECTING" "net (connect cfg s) = net s @ [WsConnect]"
    "events (connect cfg s) = events s" "logs (connect cfg s) = logs s"
    "seen (connect cfg s) = seen s" "files (connect cfg s) = files s"
  using assms by (simp_all add: connect_def request_def clearAllTimers_def)

text \<open>
  C8 as the code has it. With a valid pair and a successful probe, start resolves and
  opens the socket whatever the history request returned. When the history request
  fails, the pass emits, remembers and stores nothing and logs "Backfill error". When
  the detail request of an item fails, that is logged and only this item is skipped:
  the loop goes on with the items after it.
\<close>

theorem backfill_failures_do_not_stop_start:
  assumes "validate p = None"
  shows "fst (start cfg p HttpOk resp s) = Resolved \<and>
         ws (snd (start cfg p HttpOk resp s)) = Some CONNECTING \<and>
         (\<exists>n. net (snd (start cfg p HttpOk resp s)) = n @ [WsConnect]) \<and>
         events (snd (start cfg p HttpOk (SigsError e) s)) = events s \<and>
         seen (snd (start cfg p HttpOk (SigsError e) s)) = seen s \<and>
         files (snd (start cfg p HttpOk (SigsError e) s)) = files s \<and>
         logs (snd (start cfg p HttpOk (SigsError e) s)) =
           logs s @ [(Info, ''Helius HTTP probe OK''), (Info, ''Backfill start''),
                     (Err, ''Backfill error'')] \<and>
         (sg \<notin> set (seen s) \<longrightarrow>
            backfill_loop cfg w m ((sg, sl, TxError e) # rest) s =
            backfill_loop cfg w m rest
              (onLog Err ''txHasWalletMintPair failed'' (request (RpcGetTransaction sg) s)))"
proof -
  note v = validate_NoneD [OF assms]
  let ?s3 = "(onLog Info ''Helius HTTP probe OK'' (request HttpProbe s))
               \<lparr> pair := \<lparr> wallet = wallet p, mint = mint p \<rparr>, shouldRun := True \<rparr>"
  let ?l = "lastSlot (loadState cfg (wallet (pair ?s3)) (mint (pair ?s3)) ?s3)"
  let ?s4 = "\<lambda>resp. backfillOnce cfg (wallet (pair ?s3)) (mint (pair ?s3)) ?l resp ?s3"
  have S: "start cfg p HttpOk resp s = (Resolved, connect cfg (?s4 resp))" for resp
    using assms by (simp add: start_def Let_def)
  have c: "shouldRun (?s4 resp)" "pair (?s4 resp) = \<lparr> wallet = wallet p, mint = mint p \<rparr>"
    for resp
    using control_eqD(4,6) [OF backfillOnce_control
            [of cfg "wallet (pair ?s3)" "mint (pair ?s3)" ?l resp ?s3]]
    by (simp_all add: onLog_def request_def)
  have r: "shouldRun (?s4 resp)" "\<not> falsy (wallet (pair (?s4 resp)))"
    "\<not> falsy (mint (pair (?s4 resp)))" for resp
    using c [of resp] v by simp_all
  note k = connect_running [OF r, of cfg]
  have E: "?s4 (SigsError e) =
             onLog Err ''Backfill error''
               (request (RpcGetSignaturesForAddress (str (wallet p)) (backfillLimit cfg)
                           (max 0 (?l - 1)))
                  (onLog Info ''Backfill start'' ?s3))"
    using v by (simp add: backfillOnce_def Let_def)
  have 1: "fst (start cfg p HttpOk resp s) = Resolved"
    by (simp add: S)
  have 2: "ws (snd (start cfg p HttpOk resp s)) = Some CONNECTING"
    by (simp only: S snd_conv k(1))
  have 3: "\<exists>n. net (snd (start cfg p HttpOk resp s)) = n @ [WsConnect]"
    by (simp only: S snd_conv k(2)) blast
  have 4: "events (snd (start cfg p HttpOk (SigsError e) s)) = events s"
    by (simp only: S snd_conv k(3)) (simp only: E, simp add: onLog_def request_def)
  have 5: "seen (snd (start cfg p HttpOk (SigsError e) s)) = seen s"
    by (simp only: S snd_conv k(5)) (simp only: E, simp add: onLog_def request_def)
  have 6: "files (snd (start cfg p HttpOk (SigsError e) s)) = files s"
    by (simp only: S snd_conv k(6)) (simp only: E, simp add: onLog_def request_def)
  have 7: "logs (snd (start cfg p HttpOk (SigsError e) s)) =
           logs s @ [(Info, ''Helius HTTP probe OK''), (Info, ''Backfill start''),
                     (Err, ''Backfill error'')]"
    by (simp only: S snd_conv k(4)) (simp only: E, simp add: onLog_def request_def)
  have 8: "sg \<notin> set (seen s) \<longrightarrow>
            backfill_loop cfg w m ((sg, sl, TxError e) # rest) s =
            backfill_loop cfg w m rest
              (onLog Err ''txHasWalletMintPair failed'' (request (RpcGetTransaction sg) s))"
    by (simp add: txHasWalletMintPair_def)
  from 1 2 3 4 5 6 7 8 show ?thesis by blast
qed

theorem backfill_failures_do_not_stop_start_witness:
  "validate P = None \<and> ''sigA'' \<notin> set (seen init) \<and>
   fst (start default_cfg P HttpOk (SigsError ''HTTP 503'') init) = Resolved \<and>
   ws (snd (start default_cfg P HttpOk (SigsError ''HTTP 503'') init)) = Some CONNECTING \<and>
   events (snd (start default_cfg P HttpOk (SigsError ''HTTP 503'') init)) = [] \<and>
   backfill_loop default_cfg (Some W) (Some M) [(''sigA'', 10, TxError ''HTTP 503'')] init =
     (False, onLog Err ''txHasWalletMintPair failed'' (request (RpcGetTransaction ''sigA'') init))"
proof -
  have u: "''sigA'' \<notin> set (seen init)" by (simp add: init_def)
  have e: "events init = []" by (simp add: init_def)
  from backfill_failures_do_not_stop_start
         [OF validate_P, of default_cfg "SigsError ''HTTP 503''" init "''HTTP 503''" "''sigA''"
            "Some W" "Some M" 10 "[]"]
       validate_P u e
  show ?thesis by simp
qed

text \<open>
  C8 as stated fails for the detail request. The detail request for sigA fails during
  the pass; the pass is not aborted: the detail of sigB is requested next and sigB is
  emitted.
\<close>

theorem failed_detail_request_does_not_abort_pass:
  "map ev_signature (events (run default_cfg
      [Start P HttpOk (SigsOk [(''sigA'', 10, TxError ''HTTP 503''), (''sigB'', 11, okTx)])]
      init)) = [''sigB''] \<and>
   logs (run default_cfg
      [Start P HttpOk (SigsOk [(''sigA'', 10, TxError ''HTTP 503''), (''sigB'', 11, okTx)])]
      init) = [(Info, ''Helius HTTP probe OK''), (Info, ''Backfill start''),
               (Err, ''txHasWalletMintPair failed'')] \<and>
   net (run default_cfg
      [Start P HttpOk (SigsOk [(''sigA'', 10, TxError ''HTTP 503''), (''sigB'', 11, okTx)])]
      init) = [HttpProbe, RpcGetSignaturesForAddress W 15 0, RpcGetTransaction ''sigA'',
               RpcGetTransaction ''sigB'', WsConnect]"
  by (simp add: init_def handler_defs detail_defs sample_facts)

section \<open>Admission control of detail fetches\<close>

lemma connect_inflight: "inflightDetails (connect cfg s) = inflightDetails s"
  by (simp add: connect_def request_def clearAllTimers_def)

lemma backfillOnce_inflight:
  "inflightDetails (backfillOnce cfg w m l resp s) = inflightDetails s"
  by (rule control_eqD(5) [OF backfillOnce_control])

lemma start_inflight: "inflightDetails (snd (start cfg p pr resp s)) = inflightDetails s"
  by (simp add: start_def Let_def connect_inflight backfillOnce_inflight onLog_def request_def
      split: option.splits http_result.splits)

lemma stop_inflight: "inflightDetails (stop s) = inflightDetails s"
  by (simp add: stop_def clearAllTimers_def)

lemma scheduleReconnect_inflight:
  "inflightDetails (scheduleReconnect cfg s) = inflightDetails s"
  by (simp add: scheduleReconnect_def onLog_def Let_def)

lemma probe_timer_inflight: "inflightDetails (probe_timer cfg r s) = inflightDetails s"
  by (simp add: probe_timer_def Let_def connect_inflight scheduleReconnect_inflight
        request_def onLog_def split: http_result.splits)

lemma on_open_inflight: "inflightDetails (on_open cfg s) = inflightDetails s"
  by (simp add: on_open_def Let_def armIdleRecycle_def onLog_def request_def startHeartbeat_def)

lemma on_message_inflight:
  "inflightDetails s \<le> maxDetailConcurrency cfg \<Longrightarrow>
   inflightDetails (on_message cfg msg s) \<le> maxDetailConcurrency cfg"
  by (cases msg)
     (simp_all add: on_message_def on_notification_def armIdleRecycle_def onLog_def
        request_def Let_def)

lemma detail_done_inflight:
  "inflightDetails (detail_done cfg pd r s) \<le> inflightDetails s"
  by (simp add: detail_done_def txHasWalletMintPair_def emit_live_fields onLog_def Let_def
        split: tx_response.splits option.splits prod.splits)

lemma save_settled_inflight:
  "inflightDetails (save_settled cfg ev s) \<le> inflightDetails s"
  by (simp add: save_settled_def emit_live_fields onLog_def Let_def)

lemma step_inflight:
  assumes "inflightDetails s \<le> maxDetailConcurrency cfg"
  shows "inflightDetails (step cfg i s) \<le> maxDetailConcurrency cfg"
proof (cases i)
  case (WsMessage msg)
  with assms on_message_inflight [OF assms, of msg] show ?thesis
    by (simp add: step_def)
next
  case (DetailDone pd r)
  with assms detail_done_inflight [of cfg pd r s] show ?thesis
    by (simp add: step_def)
next
  case (SaveSettled ev)
  with assms save_settled_inflight [of cfg ev s] show ?thesis
    by (simp add: step_def)
qed (use assms in \<open>simp_all add: step_def start_inflight setPair_def stop_inflight
        on_open_inflight probe_timer_inflight on_close_def scheduleReconnect_inflight
        on_error_def on_unexpected_response_def terminate_def onLog_def ping_tick_def
        on_pong_def liveness_timeout_def idle_timeout_def Let_def split: timer.splits\<close>)

lemma run_inflight:
  assumes "inflightDetails s \<le> maxDetailConcurrency cfg"
  shows "inflightDetails (run cfg tr s) \<le> maxDetailConcurrency cfg"
  using assms by (induction tr arbitrary: s) (simp_all add: step_inflight)

text \<open>
  The counter. On any run from the initial state of a client configured with a
  non-negative maxDetailConcurrency, the variable inflightDetails never exceeds
  maxDetailConcurrency. When a notification that passes the importance predicate arrives
  while the variable is at or above the bound, the handler only re-arms the idle timer: no
  detail request is made, no closure is left pending, no event is emitted, nothing is
  logged and the variable stays.
\<close>

lemma counter_bound_and_drop:
  assumes "0 \<le> maxDetailConcurrency cfg"
  shows "inflightDetails (run cfg tr init) \<le> maxDetailConcurrency cfg \<and>
         (isImportantLog cfg lg \<and> maxDetailConcurrency cfg \<le> inflightDetails s \<longrightarrow>
            on_notification cfg sg lg er sl s = armIdleRecycle cfg s \<and>
            net (on_notification cfg sg lg er sl s) = net s \<and>
            pending (on_notification cfg sg lg er sl s) = pending s \<and>
            events (on_notification cfg sg lg er sl s) = events s \<and>
            logs (on_notification cfg sg lg er sl s) = logs s \<and>
            inflightDetails (on_notification cfg sg lg er sl s) = inflightDetails s)"
proof
  have "inflightDetails init \<le> maxDetailConcurrency cfg"
    using assms by (simp add: init_def)
  then show "inflightDetails (run cfg tr init) \<le> maxDetailConcurrency cfg"
    by (rule run_inflight)
next
  show "isImportantLog cfg lg \<and> maxDetailConcurrency cfg \<le> inflightDetails s \<longrightarrow>
            on_notification cfg sg lg er sl s = armIdleRecycle cfg s \<and>
            net (on_notification cfg sg lg er sl s) = net s \<and>
            pending (on_notification cfg sg lg er sl s) = pending s \<and>
            events (on_notification cfg sg lg er sl s) = events s \<and>
            logs (on_notification cfg sg lg er sl s) = logs s \<and>
            inflightDetails (on_notification cfg sg lg er sl s) = inflightDetails s"
    by (simp add: on_notification_def armIdleRecycle_def Let_def)
qed

text \<open>
  Without a saveEvent callback the catch handler of the closure is never reached, and the
  variable is exactly the number of detail fetches that are outstanding; with the bound
  above, at most maxDetailConcurrency fetches are then outstanding at any time.
\<close>

lemma step_counter_exact:
  assumes "saveEvent cfg = None" "inflightDetails s = int (length (pending s))"
  shows "inflightDetails (step cfg i s) = int (length (pending (step cfg i s)))"
proof (cases i)
  case (Start p pr resp)
  with assms(2) show ?thesis
    by (simp add: step_def start_inflight start_pending)
next
  case (SetPair p pr resp)
  with assms(2) show ?thesis
    by (simp add: step_def setPair_def start_inflight start_pending stop_inflight stop_obs)
next
  case (WsMessage msg)
  with assms(2) show ?thesis
    by (cases msg)
       (simp_all add: step_def on_message_def on_notification_def armIdleRecycle_def
          onLog_def request_def Let_def)
next
  case (DetailDone pd r)
  show ?thesis
  proof (cases "pd \<in> set (pending s)")
    case True
    then have "0 < length (pending s)"
      by (rule length_pos_if_in_set)
    then obtain n where n: "length (pending s) = Suc n"
      using gr0_implies_Suc by blast
    have "length (remove1 pd (pending s)) = n"
      using True n by (simp add: length_remove1)
    then have l: "int (length (remove1 pd (pending s))) = int (length (pending s)) - 1"
      using n by simp
    obtain ok s1 where
      t: "txHasWalletMintPair r (s\<lparr> pending := remove1 pd (pending s) \<rparr>) = (ok, s1)"
      by (cases "txHasWalletMintPair r (s\<lparr> pending := remove1 pd (pending s) \<rparr>)")
    have f1: "pending s1 = remove1 pd (pending s)" "inflightDetails s1 = inflightDetails s"
      using txHas_fields(3,6) [of r "s\<lparr> pending := remove1 pd (pending s) \<rparr>"] t
      by simp_all
    from DetailDone True t f1 l assms show ?thesis
      by (simp add: step_def detail_done_def Let_def emit_live_fields)
  next
    case False
    with DetailDone assms(2) show ?thesis by (simp add: step_def)
  qed
next
  case (SaveSettled ev)
  with assms show ?thesis
    by (simp add: step_def save_settled_def save_fails_def emit_live_fields Let_def)
next
  case (ProbeTimer r)
  with assms(2) show ?thesis
    by (cases r)
       (simp_all add: step_def probe_timer_def connect_def scheduleReconnect_def Let_def
          request_def onLog_def clearAllTimers_def split: timer.splits)
qed (use assms(2) in \<open>simp_all add: step_def stop_def on_open_def on_close_def on_error_def
        on_unexpected_response_def scheduleReconnect_def startHeartbeat_def armIdleRecycle_def
        clearAllTimers_def terminate_def ping_tick_def on_pong_def liveness_timeout_def
        idle_timeout_def onLog_def request_def Let_def split: timer.splits\<close>)

lemma counter_exact_without_saveEvent:
  assumes "saveEvent cfg = None"
  shows "inflightDetails (run cfg tr init) = int (length (pending (run cfg tr init)))"
proof -
  have "inflightDetails s = int (length (pending s)) \<Longrightarrow>
        inflightDetails (run cfg tr s) = int (length (pending (run cfg tr s)))" for s
    by (induction tr arbitrary: s) (simp_all add: step_counter_exact [OF assms])
  then show ?thesis by (simp add: init_def)
qed

lemma failing_save_cfg_fields:
  "persist failing_save_cfg = True" "maxDetailConcurrency failing_save_cfg = 2"
  "noMsgTimeoutMs failing_save_cfg = 60000" "pingIntervalMs failing_save_cfg = 12000"
  "backfillLimit failing_save_cfg = 15" "saveEvent failing_save_cfg = Some (\<lambda>ev. False)"
  "isImportantLog failing_save_cfg (Some [''Program log: Instruction: Swap''])"
  by (simp_all add: failing_save_cfg_def default_cfg_fields isImportantLog_def
        swap_line_matches)

text \<open>
  C7 fails on the code when a saveEvent callback rejects. The closure has decremented the
  counter when its fetch answered (line 357) and its catch handler decrements it again
  (line 378). With the bound 2: sigA and sigB are admitted, the fetch of sigA answers and
  saveEvent rejects its event, so the counter reads 0 with the fetch of sigB outstanding;
  sigC is admitted; then sigD arrives while two fetches (sigB, sigC) are outstanding, and
  instead of being dropped it starts a third fetch.
\<close>

theorem third_fetch_is_started_at_the_bound:
  "maxDetailConcurrency failing_save_cfg = 2 \<and>
   map pd_signature (pending (run failing_save_cfg
      [Start P HttpOk (SigsOk []), WsOpened, notify ''sigA'' 10, notify ''sigB'' 11,
       fetched ''sigA'' 10 okTx, saved ''sigA'' 10, notify ''sigC'' 12] init))
     = [''sigB'', ''sigC''] \<and>
   inflightDetails (run failing_save_cfg
      [Start P HttpOk (SigsOk []), WsOpened, notify ''sigA'' 10, notify ''sigB'' 11,
       fetched ''sigA'' 10 okTx, saved ''sigA'' 10, notify ''sigC'' 12] init) = 1 \<and>
   map pd_signature (pending (run failing_save_cfg
      [Start P HttpOk (SigsOk []), WsOpened, notify ''sigA'' 10, notify ''sigB'' 11,
       fetched ''sigA'' 10 okTx, saved ''sigA'' 10, notify ''sigC'' 12,
       notify ''sigD'' 13] init))
     = [''sigB'', ''sigC'', ''sigD''] \<and>
   last (net (run failing_save_cfg
      [Start P HttpOk (SigsOk []), WsOpened, notify ''sigA'' 10, notify ''sigB'' 11,
       fetched ''sigA'' 10 okTx, saved ''sigA'' 10, notify ''sigC'' 12,
       notify ''sigD'' 13] init)) = RpcGetTransaction ''sigD''"
  by (simp add: init_def handler_defs detail_defs saved_def stream_event_def P_eq
        validate_P W_nonempty W_neq_M P_fields failing_save_cfg_fields)


section \<open>setPair stops first\<close>













section \<open>De-duplication through the seen-set\<close>


lemma rank_pos: "sg \<in> set sn \<Longrightarrow> 0 < rank sg sn"
  by (induction sn) (auto simp: rank_def)

lemma rank_le_length: "rank sg sn \<le> length sn"
  by (simp add: rank_def length_dropWhile_le)





















text \<open>Why the closures under way are excluded. The seen-set is read when a notification
  arrives and written only when its closure has emitted. A second notification of sigA
  arriving before the first fetch has answered starts a second closure; after the first
  has emitted, sigA is in the seen-set with rank 1 and the second closure still emits it.\<close>

lemma inflight_closure_emits_seen_signature:
  "seen (run default_cfg
      [Start P HttpOk (SigsOk []), WsOpened, notify ''sigA'' 10, notify ''sigA'' 10,
       fetched ''sigA'' 10 okTx] init) = [''sigA''] \<and>
   map pd_signature (pending (run default_cfg
      [Start P HttpOk (SigsOk []), WsOpened, notify ''sigA'' 10, notify ''sigA'' 10,
       fetched ''sigA'' 10 okTx] init)) = [''sigA''] \<and>
   emissions ''sigA'' (run default_cfg
      [Start P HttpOk (SigsOk []), WsOpened, notify ''sigA'' 10, notify ''sigA'' 10,
       fetched ''sigA'' 10 okTx] init) = [Stream] \<and>
   emissions ''sigA'' (run default_cfg
      [Start P HttpOk (SigsOk []), WsOpened, notify ''sigA'' 10, notify ''sigA'' 10,
       fetched ''sigA'' 10 okTx, fetched ''sigA'' 10 okTx] init) = [Stream, Stream]"
proof -
  have i: "isImportantLog default_cfg (Some [''Program log: Instruction: Swap''])"
    using swapLog_important by (simp add: swapLog_def)
  show ?thesis
    by (simp add: init_def handler_defs detail_defs sample_facts i emissions_def P_eq)
qed

text \<open>The same with the backfill pass in between: a closure of the live path is waiting
  for the fetch of sigA when setPair is called with the same pair; its backfill pass emits
  sigA, and the closure, which stop does not cancel, emits it again.\<close>

lemma backfill_overtakes_inflight_closure:
  "emissions ''sigA'' (run default_cfg
      [Start P HttpOk (SigsOk []), WsOpened, notify ''sigA'' 10,
       SetPair P HttpOk (SigsOk [(''sigA'', 10, okTx)])] init) = [Backfill] \<and>
   seen (run default_cfg
      [Start P HttpOk (SigsOk []), WsOpened, notify ''sigA'' 10,
       SetPair P HttpOk (SigsOk [(''sigA'', 10, okTx)])] init) = [''sigA''] \<and>
   emissions ''sigA'' (run default_cfg
      [Start P HttpOk (SigsOk []), WsOpened, notify ''sigA'' 10,
       SetPair P HttpOk (SigsOk [(''sigA'', 10, okTx)]),
       fetched ''sigA'' 10 okTx] init) = [Backfill, Stream]"
proof -
  have i: "isImportantLog default_cfg (Some [''Program log: Instruction: Swap''])"
    using swapLog_important by (simp add: swapLog_def)
  show ?thesis
    by (simp add: init_def handler_defs detail_defs sample_facts i emissions_def P_eq)
qed














end
